theory Spec2Isabelle
  imports Main "HOL-Library.Word"
begin

section \<open>The request/response adapter of the photo editor\<close>

text \<open>
  A shallow embedding of \<^verbatim>\<open>src/services/geminiService.ts\<close> (the adapter,
  \<^verbatim>\<open>editImageWithPrompt\<close>, and the module's start-up check) and of
  \<^verbatim>\<open>utils/imageUtils.ts\<close> (the encoder, \<^verbatim>\<open>fileToGenerativePart\<close>).

  JavaScript values are modelled as follows. A property that may be missing
  (\<^verbatim>\<open>undefined\<close>) is an \<open>option\<close>; a promise is the value it settles with,
  \<open>Inr\<close> when it resolves and \<open>Inl\<close> when it rejects; a thrown value is a
  \<open>thrown\<close>; the remote service and the console are explicit: the service is a
  function from the request to the outcome of the call, and the calls made and the
  values logged are recorded in a \<open>world\<close>.
\<close>

subsection \<open>Data of the generative-AI client library, as far as the code reads it\<close>

text \<open>The library's \<^verbatim>\<open>Blob\<close>: both properties are optional there.\<close>

record blob =
  data :: "string option"
  mimeType :: "string option"

text \<open>
  The library's \<^verbatim>\<open>Part\<close>. The code reads \<^verbatim>\<open>inlineData\<close> and
  \<^verbatim>\<open>text\<close> only (the field \<open>text_p\<close> here: \<open>text\<close> is a command of the
  theory language).
\<close>

record part =
  inlineData :: "blob option"
  text_p :: "string option"

record content =
  parts :: "part list option"

record candidate =
  content :: "content option"

record response =
  candidates :: "candidate list option"

datatype modality = IMAGE | TEXT

record request =
  model :: string
  contents :: content
  responseModalities :: "modality list"

text \<open>
  What a \<^verbatim>\<open>catch\<close> clause can receive: an \<^verbatim>\<open>Error\<close> object (or an object
  of a subclass, such as \<^verbatim>\<open>TypeError\<close>) with its message, or any other value.
\<close>

datatype thrown = JsError string | NonError

text \<open>The interface \<^verbatim>\<open>EditResult\<close>; \<^verbatim>\<open>null\<close> is \<open>None\<close>.\<close>

record EditResult =
  image_r :: "string option"
  text_r :: "string option"

record world =
  calls :: "request list"
  console :: "thrown list"

type_synonym remote = "request \<Rightarrow> thrown + response"

subsection \<open>JavaScript primitives the code uses\<close>

text \<open>Truthiness of a \<^verbatim>\<open>string | null | undefined\<close>: the empty string is falsy.\<close>

definition truthy :: "string option \<Rightarrow> bool" where
  "truthy v = (case v of None \<Rightarrow> False | Some s \<Rightarrow> s \<noteq> [])"

text \<open>Interpolation into a template literal: \<^verbatim>\<open>undefined\<close> prints as its name.\<close>

definition interpolate :: "string option \<Rightarrow> string" where
  "interpolate v = (case v of None \<Rightarrow> ''undefined'' | Some s \<Rightarrow> s)"

fun startsWith :: "string \<Rightarrow> string \<Rightarrow> bool" where
  "startsWith s [] = True"
| "startsWith [] (c # cs) = False"
| "startsWith (d # ds) (c # cs) = (d = c \<and> startsWith ds cs)"

text \<open>\<^verbatim>\<open>s.includes(sub)\<close>: \<open>sub\<close> occurs in \<open>s\<close> as a contiguous substring.\<close>

fun includes_str :: "string \<Rightarrow> string \<Rightarrow> bool" where
  "includes_str [] sub = (sub = [])"
| "includes_str (c # cs) sub = (startsWith (c # cs) sub \<or> includes_str cs sub)"

text \<open>
  The message of the \<^verbatim>\<open>TypeError\<close> raised by reading a property of
  \<^verbatim>\<open>undefined\<close> (the wording of V8; the other engines' wordings do not contain
  the word the adapter looks for either).
\<close>

definition cannotRead :: "string \<Rightarrow> string" where
  "cannotRead prop = ''Cannot read properties of undefined (reading '' @ [CHR 0x27] @ prop @ [CHR 0x27] @ '')''"

subsection \<open>The adapter: \<^verbatim>\<open>editImageWithPrompt\<close>\<close>

definition model_name :: string where
  "model_name = ''gemini-2.5-flash-image-preview''"

definition invalidResponseMessage :: string where
  "invalidResponseMessage = ''Invalid response from the API. No image or text was returned.''"

definition authMessage :: string where
  "authMessage = ''API key is invalid or missing required permissions.''"

definition genericMessage :: string where
  "genericMessage = ''Failed to process image with the AI model. Please try again later.''"

text \<open>Line 48: the data URL built from an inline-data part.\<close>

definition dataUrl :: "blob \<Rightarrow> string" where
  "dataUrl b = ''data:'' @ interpolate (mimeType b) @ '';base64,'' @ interpolate (data b)"

text \<open>
  Lines 45 to 51, the body of the loop: the state is the pair of the variables
  \<^verbatim>\<open>editedImage\<close> and \<^verbatim>\<open>responseText\<close>.
\<close>

definition scanPart :: "string option \<times> string option \<Rightarrow> part \<Rightarrow> string option \<times> string option" where
  "scanPart st p =
     (case inlineData p of
        Some b \<Rightarrow> (Some (dataUrl b), snd st)
      | None \<Rightarrow> if truthy (text_p p) then (fst st, text_p p) else st)"

text \<open>Line 44, the loop over the parts, from first to last.\<close>

fun scanParts :: "string option \<times> string option \<Rightarrow> part list \<Rightarrow> string option \<times> string option" where
  "scanParts st [] = st"
| "scanParts st (p # ps) = scanParts (scanPart st p) ps"

text \<open>
  Line 43, the guard of the loop with what it evaluates to: the part list to scan
  (\<open>None\<close> when the guard is falsy and the loop is skipped), or the
  \<^verbatim>\<open>TypeError\<close> of reading \<^verbatim>\<open>content\<close> of a missing first candidate or
  \<^verbatim>\<open>parts\<close> of a missing content. An empty array is truthy.
\<close>

definition firstParts :: "response \<Rightarrow> thrown + part list option" where
  "firstParts r =
     (case candidates r of
        None \<Rightarrow> Inr None
      | Some [] \<Rightarrow> Inl (JsError (cannotRead ''content''))
      | Some (c # cs) \<Rightarrow>
          (case content c of
             None \<Rightarrow> Inl (JsError (cannotRead ''parts''))
           | Some ct \<Rightarrow> Inr (parts ct)))"

text \<open>Lines 40 to 59: what the \<^verbatim>\<open>try\<close> block does with the response.\<close>

definition normalizeResponse :: "response \<Rightarrow> thrown + EditResult" where
  "normalizeResponse r =
     (case firstParts r of
        Inl e \<Rightarrow> Inl e
      | Inr ps \<Rightarrow>
          (let st = scanParts (None, None) (case ps of None \<Rightarrow> [] | Some l \<Rightarrow> l) in
           if \<not> truthy (fst st) \<and> \<not> truthy (snd st)
           then Inl (JsError invalidResponseMessage)
           else Inr \<lparr>image_r = fst st, text_r = snd st\<rparr>))"

text \<open>Lines 64 to 67: the error the \<^verbatim>\<open>catch\<close> clause throws for the one caught.\<close>

definition classify :: "thrown \<Rightarrow> thrown" where
  "classify e =
     (case e of
        JsError m \<Rightarrow> if includes_str m ''permission'' then JsError authMessage else JsError genericMessage
      | NonError \<Rightarrow> JsError genericMessage)"

text \<open>Line 27: the text part of the request, \<^verbatim>\<open>{ text: textPrompt }\<close>.\<close>

definition textPart :: "string \<Rightarrow> part" where
  "textPart t = \<lparr>inlineData = None, text_p = Some t\<rparr>"

text \<open>Lines 29 to 38: the request.\<close>

definition buildRequest :: "part \<Rightarrow> string \<Rightarrow> request" where
  "buildRequest imagePart textPrompt =
     \<lparr>model = model_name,
      contents = \<lparr>parts = Some [imagePart, textPart textPrompt]\<rparr>,
      responseModalities = [IMAGE, TEXT]\<rparr>"

text \<open>
  The whole function. \<open>gen\<close> is \<^verbatim>\<open>ai.models.generateContent\<close>; the call is
  recorded in the world, and so is the value that \<^verbatim>\<open>console.error\<close> prints.
  The \<^verbatim>\<open>throw\<close> of line 56 is inside the \<^verbatim>\<open>try\<close> block, so it is caught
  by the same \<^verbatim>\<open>catch\<close> clause as a failure of the call.
\<close>

definition editImageWithPrompt :: "remote \<Rightarrow> part \<Rightarrow> string \<Rightarrow> world \<Rightarrow> (thrown + EditResult) \<times> world" where
  "editImageWithPrompt gen imagePart textPrompt w =
     (let req = buildRequest imagePart textPrompt;
          w1 = w\<lparr>calls := calls w @ [req]\<rparr>;
          body = (case gen req of Inl e \<Rightarrow> Inl e | Inr r \<Rightarrow> normalizeResponse r)
      in case body of
           Inr res \<Rightarrow> (Inr res, w1)
         | Inl e \<Rightarrow> (Inl (classify e), w1\<lparr>console := console w1 @ [e]\<rparr>))"

subsection \<open>The start of the module\<close>

text \<open>
  Lines 4 to 8 of \<^verbatim>\<open>geminiService.ts\<close>, run once when the module is loaded.
  \<open>env\<close> is \<^verbatim>\<open>process.env\<close>; the result is the error thrown or the client
  \<^verbatim>\<open>ai\<close> built from the key. The test is for truthiness, so a key that is set to the
  empty string is refused like a key that is not set.
\<close>

type_synonym env = "string \<Rightarrow> string option"

text \<open>The client object, as far as the options it was given.\<close>

record client =
  apiKey :: "string option"

definition initModule :: "env \<Rightarrow> thrown + client" where
  "initModule env =
     (if \<not> truthy (env ''API_KEY'')
      then Inl (JsError ''API_KEY environment variable is not set'')
      else Inr \<lparr>apiKey = env ''API_KEY''\<rparr>)"

section \<open>The encoder: \<^verbatim>\<open>fileToGenerativePart\<close>\<close>

subsection \<open>The platform: radix-64 encoding and the file reader\<close>

text \<open>
  Modelled from the spec: the read primitive of the platform,
  \<^verbatim>\<open>FileReader.readAsDataURL\<close>, and the radix-64 encoding it produces are not code
  of the repository. Following the specification ("a standard text-safe encoding
  (radix-64) of the bytes", returned behind a data-URI prefix) and the code's comment
  ("the result includes the data URL prefix"), the result of a read is the text
  \<open>data:\<close>, the declared type of the file, \<open>;base64,\<close> and the encoding of the bytes
  by RFC 4648: groups of three bytes as four characters of the alphabet
  \<open>A-Z a-z 0-9 + /\<close>, the last group padded with \<open>=\<close>.
\<close>

type_synonym byte = "8 word"

text \<open>The character of a six-bit value, and the value of a character of the alphabet.\<close>

definition b64char :: "nat \<Rightarrow> char" where
  "b64char n =
     (if n < 26 then char_of (65 + n)
      else if n < 52 then char_of (71 + n)
      else if n < 62 then char_of (n - 4)
      else if n = 62 then CHR ''+''
      else CHR ''/'')"

definition b64index :: "char \<Rightarrow> nat option" where
  "b64index c =
     (let n = (of_char c :: nat) in
      if 65 \<le> n \<and> n \<le> 90 then Some (n - 65)
      else if 97 \<le> n \<and> n \<le> 122 then Some (n - 71)
      else if 48 \<le> n \<and> n \<le> 57 then Some (n + 4)
      else if n = 43 then Some 62
      else if n = 47 then Some 63
      else None)"

fun base64_encode :: "byte list \<Rightarrow> string" where
  "base64_encode [] = []"
| "base64_encode [a] =
     [b64char (unat a div 4), b64char (unat a mod 4 * 16), CHR ''='', CHR ''='']"
| "base64_encode [a, b] =
     [b64char (unat a div 4), b64char (unat a mod 4 * 16 + unat b div 16),
      b64char (unat b mod 16 * 4), CHR ''='']"
| "base64_encode (a # b # c # rest) =
     [b64char (unat a div 4), b64char (unat a mod 4 * 16 + unat b div 16),
      b64char (unat b mod 16 * 4 + unat c div 64), b64char (unat c mod 64)]
     @ base64_encode rest"

text \<open>
  Decoding, the inverse direction: \<open>None\<close> for a text that is not made of groups of
  four characters of the alphabet, with padding in the last group only.
\<close>

fun base64_decode :: "string \<Rightarrow> byte list option" where
  "base64_decode [] = Some []"
| "base64_decode (c1 # c2 # c3 # c4 # rest) =
     (case (b64index c1, b64index c2) of
        (Some i, Some j) \<Rightarrow>
          if rest = [] \<and> c3 = CHR ''='' \<and> c4 = CHR ''='' then Some [of_nat (i * 4 + j div 16)]
          else (case b64index c3 of
             Some k \<Rightarrow>
               if rest = [] \<and> c4 = CHR ''=''
               then Some [of_nat (i * 4 + j div 16), of_nat (j mod 16 * 16 + k div 4)]
               else (case b64index c4 of
                  Some l \<Rightarrow>
                    map_option
                      (\<lambda>bs. of_nat (i * 4 + j div 16) # of_nat (j mod 16 * 16 + k div 4)
                              # of_nat (k mod 4 * 64 + l) # bs)
                      (base64_decode rest)
                | None \<Rightarrow> None)
           | None \<Rightarrow> None)
      | _ \<Rightarrow> None)"
| "base64_decode _ = None"

text \<open>
  A \<^verbatim>\<open>File\<close>: its declared media type, its bytes, and whether the platform can read
  it. The reader's result is \<^verbatim>\<open>null\<close> (\<open>None\<close>) after a failed read.
\<close>

record File =
  ftype :: string
  fbytes :: "byte list"
  readable :: bool

definition readAsDataURL :: "File \<Rightarrow> string option" where
  "readAsDataURL f =
     (if readable f then Some (''data:'' @ ftype f @ '';base64,'' @ base64_encode (fbytes f))
      else None)"

text \<open>
  \<^verbatim>\<open>s.split(sep)\<close> for a separator of one character: the segments between the
  occurrences of the separator, at least one.
\<close>

fun split_str :: "string \<Rightarrow> char \<Rightarrow> string list" where
  "split_str [] sep = [[]]"
| "split_str (c # cs) sep =
     (if c = sep then [] # split_str cs sep
      else (case split_str cs sep of
              [] \<Rightarrow> [[c]]
            | seg # segs \<Rightarrow> (c # seg) # segs))"

text \<open>Indexing an array: \<^verbatim>\<open>undefined\<close> beyond its length.\<close>

definition at_index :: "'a list \<Rightarrow> nat \<Rightarrow> 'a option" where
  "at_index xs i = (if i < length xs then Some (xs ! i) else None)"

subsection \<open>The function\<close>

text \<open>
  The promise of lines 10 to 17 is resolved by the \<^verbatim>\<open>onloadend\<close> handler with the
  second segment of the reader's result. After a failed read the handler raises a
  \<^verbatim>\<open>TypeError\<close> on the \<^verbatim>\<open>null\<close> result and the promise is never settled: the
  function then returns nothing, \<open>None\<close>.
\<close>

definition fileToGenerativePart :: "File \<Rightarrow> part option" where
  "fileToGenerativePart f =
     (case readAsDataURL f of
        None \<Rightarrow> None
      | Some url \<Rightarrow>
          Some \<lparr>inlineData = Some \<lparr>data = at_index (split_str url CHR '','') 1,
                                    mimeType = Some (ftype f)\<rparr>,
                text_p = None\<rparr>)"

section \<open>Specification vocabulary and facts\<close>

subsection \<open>Vocabulary of the specification\<close>

text \<open>
  The definitions of this subsection are not code: they name what the statements below
  talk about. \<open>scanned r\<close> is the part sequence the loop of line 44 visits for the
  response \<open>r\<close>: the parts of the first candidate, and nothing when the loop is not
  reached.
\<close>

definition scanned :: "response \<Rightarrow> part list" where
  "scanned r = (case firstParts r of Inr (Some ps) \<Rightarrow> ps | _ \<Rightarrow> [])"

text \<open>
  The data URL of the last part that carries inline data, and the text of the last part
  that carries no inline data and a non-empty text: the first such part met from the
  end of the sequence.
\<close>

definition lastImage :: "part list \<Rightarrow> string option" where
  "lastImage ps =
     (case find (\<lambda>p. inlineData p \<noteq> None) (rev ps) of
        None \<Rightarrow> None
      | Some p \<Rightarrow> map_option dataUrl (inlineData p))"

definition lastText :: "part list \<Rightarrow> string option" where
  "lastText ps =
     (case find (\<lambda>p. inlineData p = None \<and> truthy (text_p p)) (rev ps) of
        None \<Rightarrow> None
      | Some p \<Rightarrow> text_p p)"

text \<open>
  The specification's words, "the last text part": a part is either inline binary data
  or plain text, so a text part is a part with a text and no inline data, whatever the
  text is.
\<close>

definition spec_lastText :: "part list \<Rightarrow> string option" where
  "spec_lastText ps =
     (case find (\<lambda>p. inlineData p = None \<and> text_p p \<noteq> None) (rev ps) of
        None \<Rightarrow> None
      | Some p \<Rightarrow> text_p p)"

text \<open>A text part with the empty text.\<close>

definition emptyTextPart :: "part \<Rightarrow> bool" where
  "emptyTextPart p = (inlineData p = None \<and> text_p p = Some [])"

text \<open>Sample values: an inline-data part, a response of one candidate, a fresh world.\<close>

definition inlinePart :: "string \<Rightarrow> string \<Rightarrow> part" where
  "inlinePart m d = \<lparr>inlineData = Some \<lparr>data = Some d, mimeType = Some m\<rparr>, text_p = None\<rparr>"

definition respondWith :: "part list \<Rightarrow> response" where
  "respondWith ps = \<lparr>candidates = Some [\<lparr>content = Some \<lparr>parts = Some ps\<rparr>\<rparr>]\<rparr>"

definition emptyWorld :: world where
  "emptyWorld = \<lparr>calls = [], console = []\<rparr>"

subsection \<open>Basic facts\<close>

lemma truthy_simps:
  "truthy None = False" "truthy (Some s) = (s \<noteq> [])"
  by (simp_all add: truthy_def)

lemma scanParts_append: "scanParts st (xs @ ys) = scanParts (scanParts st xs) ys"
  by (induction xs arbitrary: st) simp_all

lemma scanParts_snoc: "scanParts st (xs @ [x]) = scanPart (scanParts st xs) x"
  by (simp add: scanParts_append)

lemma dataUrl_nonempty: "dataUrl b \<noteq> []"
  by (simp add: dataUrl_def)

lemma scanParts_fst:
  "fst (scanParts st ps) = (case lastImage ps of None \<Rightarrow> fst st | Some u \<Rightarrow> Some u)"
proof (induction ps rule: rev_induct)
  case Nil
  show ?case by (simp add: lastImage_def)
next
  case (snoc x xs)
  show ?case
  proof (cases "inlineData x")
    case None
    then show ?thesis using snoc
      by (simp add: scanParts_snoc scanPart_def lastImage_def)
  next
    case (Some b)
    then show ?thesis
      by (simp add: scanParts_snoc scanPart_def lastImage_def)
  qed
qed

lemma scanParts_snd:
  "snd (scanParts st ps) = (case lastText ps of None \<Rightarrow> snd st | Some t \<Rightarrow> Some t)"
proof (induction ps rule: rev_induct)
  case Nil
  show ?case by (simp add: lastText_def)
next
  case (snoc x xs)
  show ?case
  proof (cases "inlineData x")
    case None
    then show ?thesis using snoc
      by (cases "text_p x") (simp_all add: scanParts_snoc scanPart_def lastText_def truthy_def)
  next
    case (Some b)
    then show ?thesis using snoc
      by (simp add: scanParts_snoc scanPart_def lastText_def)
  qed
qed

lemma lastImage_truthy: "truthy (lastImage ps) = (lastImage ps \<noteq> None)"
  by (auto simp: lastImage_def truthy_def dataUrl_nonempty find_Some_iff split: option.splits)

lemma lastText_truthy: "truthy (lastText ps) = (lastText ps \<noteq> None)"
  by (auto simp: lastText_def truthy_def find_Some_iff split: option.splits)

lemma scanParts_init:
  "scanParts (None, None) ps = (lastImage ps, lastText ps)"
  by (rule prod_eqI) (simp_all add: scanParts_fst scanParts_snd split: option.splits)

lemma normalizeResponse_scanned:
  "firstParts r = Inr pso \<Longrightarrow> normalizeResponse r =
     (let ps = (case pso of None \<Rightarrow> [] | Some l \<Rightarrow> l) in
      if lastImage ps = None \<and> lastText ps = None then Inl (JsError invalidResponseMessage)
      else Inr \<lparr>image_r = lastImage ps, text_r = lastText ps\<rparr>)"
  by (simp add: normalizeResponse_def scanParts_init lastImage_truthy lastText_truthy Let_def)

lemma invalid_no_permission: "\<not> includes_str invalidResponseMessage ''permission''"
  by (simp add: invalidResponseMessage_def)

lemma cannotRead_no_permission:
  "\<not> includes_str (cannotRead ''content'') ''permission''"
  "\<not> includes_str (cannotRead ''parts'') ''permission''"
  by (simp_all add: cannotRead_def)


lemma edit_resolved:
  "gen (buildRequest ip tp) = Inr r \<Longrightarrow>
   fst (editImageWithPrompt gen ip tp w) =
     (case normalizeResponse r of Inl e \<Rightarrow> Inl (classify e) | Inr res \<Rightarrow> Inr res)"
  by (simp add: editImageWithPrompt_def Let_def split: sum.splits)

lemma edit_rejected:
  "gen (buildRequest ip tp) = Inl e \<Longrightarrow>
   fst (editImageWithPrompt gen ip tp w) = Inl (classify e)"
  by (simp add: editImageWithPrompt_def Let_def)

lemma classify_invalid: "classify (JsError invalidResponseMessage) = JsError genericMessage"
  by (simp add: classify_def invalid_no_permission)

lemma classify_cannotRead:
  "classify (JsError (cannotRead ''content'')) = JsError genericMessage"
  "classify (JsError (cannotRead ''parts'')) = JsError genericMessage"
  by (simp_all add: classify_def cannotRead_no_permission)

lemma firstParts_Inl:
  "firstParts r = Inl e \<Longrightarrow> classify e = JsError genericMessage"
  by (auto simp: firstParts_def classify_cannotRead split: option.splits list.splits)

lemma edit_scanned:
  assumes "gen (buildRequest ip tp) = Inr r"
  shows "fst (editImageWithPrompt gen ip tp w) =
     (if lastImage (scanned r) = None \<and> lastText (scanned r) = None
      then Inl (JsError genericMessage)
      else Inr \<lparr>image_r = lastImage (scanned r), text_r = lastText (scanned r)\<rparr>)"
proof (cases "firstParts r")
  case (Inl e)
  then have "scanned r = []" "normalizeResponse r = Inl e"
    by (simp_all add: scanned_def normalizeResponse_def)
  then show ?thesis
    using assms Inl
    by (simp add: edit_resolved firstParts_Inl lastImage_def lastText_def)
next
  case (Inr pso)
  then have "scanned r = (case pso of None \<Rightarrow> [] | Some l \<Rightarrow> l)"
    by (simp add: scanned_def split: option.splits)
  then show ?thesis
    using assms normalizeResponse_scanned [OF Inr]
    by (simp add: edit_resolved classify_invalid Let_def)
qed

lemma scanned_respondWith: "scanned (respondWith ps) = ps"
  by (simp add: scanned_def respondWith_def firstParts_def)

lemma firstParts_respondWith: "firstParts (respondWith ps) = Inr (Some ps)"
  by (simp add: respondWith_def firstParts_def)

lemma firstParts_scanned: "firstParts r = Inr (Some ps) \<Longrightarrow> scanned r = ps"
  by (simp add: scanned_def)

lemma startsWith_iff: "startsWith s sub \<longleftrightarrow> (\<exists>post. s = sub @ post)"
  by (induction s sub rule: startsWith.induct) auto

lemma includes_str_iff: "includes_str s sub \<longleftrightarrow> (\<exists>pre post. s = pre @ sub @ post)"
proof (induction s)
  case Nil
  show ?case by auto
next
  case (Cons c cs)
  show ?case
  proof
    assume "includes_str (c # cs) sub"
    then consider "startsWith (c # cs) sub" | "includes_str cs sub" by auto
    then show "\<exists>pre post. c # cs = pre @ sub @ post"
    proof cases
      case 1
      then obtain post where "c # cs = sub @ post" by (auto simp: startsWith_iff)
      then have "c # cs = [] @ sub @ post" by simp
      then show ?thesis by blast
    next
      case 2
      then obtain pre post where "cs = pre @ sub @ post" using Cons by auto
      then have "c # cs = (c # pre) @ sub @ post" by simp
      then show ?thesis by blast
    qed
  next
    assume "\<exists>pre post. c # cs = pre @ sub @ post"
    then obtain pre post where eq: "c # cs = pre @ sub @ post" by blast
    show "includes_str (c # cs) sub"
    proof (cases pre)
      case Nil
      then have "startsWith (c # cs) sub" using eq by (auto simp: startsWith_iff)
      then show ?thesis by simp
    next
      case (Cons d ds)
      then have "cs = ds @ sub @ post" using eq by simp
      then have "includes_str cs sub" using Cons.IH by blast
      then show ?thesis by simp
    qed
  qed
qed

lemma find_Some_holds: "find P xs = Some x \<Longrightarrow> P x \<and> x \<in> set xs"
  by (induction xs) (auto split: if_splits)

lemma lastImage_None_iff: "lastImage ps = None \<longleftrightarrow> list_all (\<lambda>p. inlineData p = None) ps"
proof (cases "find (\<lambda>p. inlineData p \<noteq> None) (rev ps)")
  case None
  then have "\<forall>p\<in>set ps. inlineData p = None"
    by (auto simp: find_None_iff)
  then show ?thesis
    unfolding lastImage_def None by (simp add: list_all_iff)
next
  case (Some p)
  then have "inlineData p \<noteq> None \<and> p \<in> set (rev ps)" by (rule find_Some_holds)
  then show ?thesis
    unfolding lastImage_def Some by (auto simp: list_all_iff)
qed

lemma lastText_None_iff:
  "lastText ps = None \<longleftrightarrow> list_all (\<lambda>p. inlineData p \<noteq> None \<or> \<not> truthy (text_p p)) ps"
proof (cases "find (\<lambda>p. inlineData p = None \<and> truthy (text_p p)) (rev ps)")
  case None
  then have "\<forall>p\<in>set ps. inlineData p \<noteq> None \<or> \<not> truthy (text_p p)"
    by (auto simp: find_None_iff)
  then show ?thesis
    unfolding lastText_def None by (simp add: list_all_iff)
next
  case (Some p)
  then have "(inlineData p = None \<and> truthy (text_p p)) \<and> p \<in> set (rev ps)"
    by (rule find_Some_holds)
  then show ?thesis
    unfolding lastText_def Some by (auto simp: list_all_iff truthy_def split: option.splits)
qed

lemma lastText_Some_nonempty: "lastText ps = Some t \<Longrightarrow> t \<noteq> []"
  using lastText_truthy [of ps] by (simp add: truthy_def)

lemma edit_success_truthy:
  assumes "fst (editImageWithPrompt gen ip tp w) = Inr res"
  shows "truthy (image_r res) \<or> truthy (text_r res)"
proof (cases "gen (buildRequest ip tp)")
  case (Inl e)
  then show ?thesis using assms by (simp add: edit_rejected)
next
  case (Inr r)
  show ?thesis
  proof (cases "lastImage (scanned r) = None \<and> lastText (scanned r) = None")
    case True
    then show ?thesis using assms Inr by (simp add: edit_scanned)
  next
    case False
    then have "\<lparr>image_r = lastImage (scanned r), text_r = lastText (scanned r)\<rparr> = res"
      using assms Inr by (simp add: edit_scanned if_not_P [OF False])
    then have "image_r res = lastImage (scanned r)" "text_r res = lastText (scanned r)"
      by auto
    then show ?thesis using False
      by (simp add: lastImage_truthy lastText_truthy del: not_None_eq)
  qed
qed

lemma classify_range: "classify e = JsError authMessage \<or> classify e = JsError genericMessage"
  by (simp add: classify_def split: thrown.splits)

lemma auth_generic_distinct: "authMessage \<noteq> genericMessage"
  by (simp add: authMessage_def genericMessage_def)

lemma normalizeResponse_Inl_generic: "normalizeResponse r = Inl e \<Longrightarrow> classify e = JsError genericMessage"
  by (auto simp: normalizeResponse_def Let_def classify_invalid firstParts_Inl split: sum.splits if_splits)

lemma edit_Inl_range:
  assumes "fst (editImageWithPrompt gen ip tp w) = Inl e"
  shows "e = JsError authMessage \<or> e = JsError genericMessage"
proof (cases "gen (buildRequest ip tp)")
  case (Inl e0)
  then show ?thesis using assms classify_range [of e0] by (auto simp: edit_rejected)
next
  case (Inr r)
  then show ?thesis using assms
    by (auto simp: edit_scanned split: if_splits)
qed

lemma scanPart_text_irrelevant:
  "inlineData p \<noteq> None \<Longrightarrow> scanPart st (p\<lparr>text_p := t\<rparr>) = scanPart st p"
  by (auto simp: scanPart_def)

lemma scanParts_text_irrelevant:
  "inlineData p \<noteq> None \<Longrightarrow>
   scanParts st (pre @ p\<lparr>text_p := t\<rparr> # post) = scanParts st (pre @ p # post)"
  by (simp add: scanParts_append scanPart_text_irrelevant)

lemma edit_firstParts:
  assumes "gen (buildRequest ip tp) = Inr r" and "firstParts r = Inr (Some ps)"
  shows "fst (editImageWithPrompt gen ip tp w) =
     (let st = scanParts (None, None) ps in
      if \<not> truthy (fst st) \<and> \<not> truthy (snd st) then Inl (JsError genericMessage)
      else Inr \<lparr>image_r = fst st, text_r = snd st\<rparr>)"
  using assms by (simp add: edit_resolved normalizeResponse_def Let_def classify_invalid)

lemma scanPart_emptyText: "emptyTextPart p \<Longrightarrow> scanPart st p = st"
  by (simp add: emptyTextPart_def scanPart_def truthy_def)

lemma scanParts_drop_emptyText:
  "scanParts st (filter (\<lambda>p. \<not> emptyTextPart p) ps) = scanParts st ps"
  by (induction ps arbitrary: st) (simp_all add: scanPart_emptyText)

subsection \<open>The vocabulary says what it should\<close>

text \<open>
  The data URL has the shape \<open>data:<mediaType>;base64,<payload>\<close>; \<open>lastImage\<close> and
  \<open>lastText\<close> pick the part after which no other part of the kind follows; and the
  specification's "last text part" differs from \<open>lastText\<close> only where a text part has
  the empty text.
\<close>

lemma dataUrl_present:
  "dataUrl \<lparr>data = Some d, mimeType = Some m\<rparr> = ''data:'' @ m @ '';base64,'' @ d"
  by (simp add: dataUrl_def interpolate_def)

lemma find_rev_last:
  "P p \<Longrightarrow> list_all (\<lambda>q. \<not> P q) post \<Longrightarrow> find P (rev (pre @ p # post)) = Some p"
  by (induction post rule: rev_induct) simp_all

lemma lastImage_decomp:
  assumes "inlineData p = Some b" and "list_all (\<lambda>q. inlineData q = None) post"
  shows "lastImage (pre @ p # post) = Some (dataUrl b)"
proof -
  have "find (\<lambda>p. inlineData p \<noteq> None) (rev (pre @ p # post)) = Some p"
    using assms by (intro find_rev_last) simp_all
  then show ?thesis
    using assms(1) by (simp add: lastImage_def)
qed

lemma lastText_decomp:
  assumes "inlineData p = None" and "text_p p = Some t" and "t \<noteq> []"
    and "list_all (\<lambda>q. inlineData q \<noteq> None \<or> \<not> truthy (text_p q)) post"
  shows "lastText (pre @ p # post) = Some t"
proof -
  have "find (\<lambda>p. inlineData p = None \<and> truthy (text_p p)) (rev (pre @ p # post)) = Some p"
    using assms by (intro find_rev_last) (simp_all add: truthy_def)
  then show ?thesis
    using assms(2) by (simp add: lastText_def)
qed

lemma spec_lastText_agrees:
  assumes "list_all (\<lambda>p. text_p p \<noteq> Some []) ps"
  shows "spec_lastText ps = lastText ps"
proof -
  have "\<And>p. p \<in> set (rev ps) \<Longrightarrow>
      (inlineData p = None \<and> text_p p \<noteq> None) = (inlineData p = None \<and> truthy (text_p p))"
    using assms by (auto simp: list_all_iff truthy_def split: option.splits)
  then have "find (\<lambda>p. inlineData p = None \<and> text_p p \<noteq> None) (rev ps) =
      find (\<lambda>p. inlineData p = None \<and> truthy (text_p p)) (rev ps)"
    by (intro find_cong) simp_all
  then show ?thesis
    by (simp add: spec_lastText_def lastText_def)
qed

subsection \<open>Facts about the encoder\<close>

lemma b64index_b64char: "n < 64 \<Longrightarrow> b64index (b64char n) = Some n"
  by (auto simp: b64index_def b64char_def Let_def)

lemma of_char_b64char:
  "(of_char (b64char n) :: nat) =
     (if n < 26 then 65 + n else if n < 52 then 71 + n else if n < 62 then n - 4
      else if n = 62 then 43 else 47)"
  by (simp add: b64char_def)

lemma b64char_not_pad: "b64char n \<noteq> CHR ''=''"
proof
  assume "b64char n = CHR ''=''"
  then have "(of_char (b64char n) :: nat) = of_char CHR ''=''" by simp
  then show False by (simp add: of_char_b64char split: if_splits)
qed

lemma b64char_not_comma: "b64char n \<noteq> CHR '',''"
proof
  assume "b64char n = CHR '',''"
  then have "(of_char (b64char n) :: nat) = of_char CHR '',''" by simp
  then show False by (simp add: of_char_b64char split: if_splits)
qed

lemma byte_lt: "unat (a :: 8 word) < 256"
  using unsigned_less [of a] by simp

lemma sextet_nat:
  fixes x y z :: nat
  assumes "x < 256" "y < 256" "z < 256"
  shows "x div 4 < 64" "x mod 4 * 16 < 64" "x mod 4 * 16 + y div 16 < 64"
    "y mod 16 * 4 < 64" "y mod 16 * 4 + z div 64 < 64" "z mod 64 < 64"
proof -
  have a: "x mod 4 < 4" "y mod 16 < 16" by simp_all
  have b: "y div 16 < 16" "z div 64 < 4" "x div 4 < 64"
    using assms by (simp_all add: div_less_iff_less_mult)
  show "x div 4 < 64" by (rule b)
  show "x mod 4 * 16 < 64" using a(1) by linarith
  show "x mod 4 * 16 + y div 16 < 64" using a(1) b(1) by linarith
  show "y mod 16 * 4 < 64" using a(2) by linarith
  show "y mod 16 * 4 + z div 64 < 64" using a(2) b(2) by linarith
  show "z mod 64 < 64" by simp
qed

lemma regroup1: "(x::nat) div 4 * 4 + (x mod 4 * 16 + y div 16) div 16 = x" if "y < 256"
proof -
  have "y div 16 div 16 = 0" using that by (simp add: div_mult2_eq [symmetric])
  then have "(x mod 4 * 16 + y div 16) div 16 = x mod 4" by simp
  then show ?thesis by simp
qed

lemma regroup1_pad: "(x::nat) div 4 * 4 + (x mod 4 * 16) div 16 = x"
  by simp

lemma regroup2:
  "((x::nat) mod 4 * 16 + y div 16) mod 16 * 16 + (y mod 16 * 4 + z div 64) div 4 = y"
  if "y < 256" "z < 256"
proof -
  have "y div 16 < 16" using that(1) by (simp add: div_less_iff_less_mult)
  then have 1: "(x mod 4 * 16 + y div 16) mod 16 = y div 16" by simp
  have "z div 64 div 4 = 0" using that(2) by (simp add: div_mult2_eq [symmetric])
  then have 2: "(y mod 16 * 4 + z div 64) div 4 = y mod 16" by simp
  show ?thesis unfolding 1 2 by simp
qed

lemma regroup2_pad: "((x::nat) mod 4 * 16 + y div 16) mod 16 * 16 + (y mod 16 * 4) div 4 = y"
  if "y < 256"
proof -
  have "y div 16 < 16" using that by (simp add: div_less_iff_less_mult)
  then have 1: "(x mod 4 * 16 + y div 16) mod 16 = y div 16" by simp
  show ?thesis unfolding 1 by simp
qed

lemma regroup3: "((y::nat) mod 16 * 4 + z div 64) mod 4 * 64 + z mod 64 = z" if "z < 256"
proof -
  have "z div 64 < 4" using that by (simp add: div_less_iff_less_mult)
  then have 1: "(y mod 16 * 4 + z div 64) mod 4 = z div 64" by simp
  show ?thesis unfolding 1 by simp
qed

lemma sextet_bounds:
  fixes a b c :: byte
  shows "unat a div 4 < 64" "unat a mod 4 * 16 < 64" "unat a mod 4 * 16 + unat b div 16 < 64"
    "unat b mod 16 * 4 < 64" "unat b mod 16 * 4 + unat c div 64 < 64" "unat c mod 64 < 64"
  by (rule sextet_nat [OF byte_lt byte_lt byte_lt])+

lemma decode_quad:
  fixes a b c :: byte
  shows "of_nat (unat a div 4 * 4 + (unat a mod 4 * 16 + unat b div 16) div 16) = a"
    and "of_nat (unat a div 4 * 4 + (unat a mod 4 * 16) div 16) = a"
    and "of_nat ((unat a mod 4 * 16 + unat b div 16) mod 16 * 16
           + (unat b mod 16 * 4 + unat c div 64) div 4) = b"
    and "of_nat ((unat a mod 4 * 16 + unat b div 16) mod 16 * 16 + (unat b mod 16 * 4) div 4) = b"
    and "of_nat ((unat b mod 16 * 4 + unat c div 64) mod 4 * 64 + unat c mod 64) = c"
proof -
  show "of_nat (unat a div 4 * 4 + (unat a mod 4 * 16 + unat b div 16) div 16) = a"
    by (simp only: regroup1 [OF byte_lt]) simp
  show "of_nat (unat a div 4 * 4 + (unat a mod 4 * 16) div 16) = a"
    by (simp only: regroup1_pad) simp
  show "of_nat ((unat a mod 4 * 16 + unat b div 16) mod 16 * 16
           + (unat b mod 16 * 4 + unat c div 64) div 4) = b"
    by (simp only: regroup2 [OF byte_lt byte_lt]) simp
  show "of_nat ((unat a mod 4 * 16 + unat b div 16) mod 16 * 16 + (unat b mod 16 * 4) div 4) = b"
    by (simp only: regroup2_pad [OF byte_lt]) simp
  show "of_nat ((unat b mod 16 * 4 + unat c div 64) mod 4 * 64 + unat c mod 64) = c"
    by (simp only: regroup3 [OF byte_lt]) simp
qed

lemma decode_full:
  assumes "i < 64" "j < 64" "k < 64" "l < 64"
  shows "base64_decode (b64char i # b64char j # b64char k # b64char l # rest) =
     map_option
       (\<lambda>bs. of_nat (i * 4 + j div 16) # of_nat (j mod 16 * 16 + k div 4)
               # of_nat (k mod 4 * 64 + l) # bs)
       (base64_decode rest)"
  by (simp add: b64index_b64char [OF assms(1)] b64index_b64char [OF assms(2)]
      b64index_b64char [OF assms(3)] b64index_b64char [OF assms(4)] b64char_not_pad
      del: of_nat_add of_nat_mult)

lemma decode_pad1:
  assumes "i < 64" "j < 64" "k < 64"
  shows "base64_decode [b64char i, b64char j, b64char k, CHR ''=''] =
     Some [of_nat (i * 4 + j div 16), of_nat (j mod 16 * 16 + k div 4)]"
  by (simp add: b64index_b64char [OF assms(1)] b64index_b64char [OF assms(2)]
      b64index_b64char [OF assms(3)] b64char_not_pad del: of_nat_add of_nat_mult)

lemma decode_pad2:
  assumes "i < 64" "j < 64"
  shows "base64_decode [b64char i, b64char j, CHR ''='', CHR ''=''] =
     Some [of_nat (i * 4 + j div 16)]"
  by (simp add: b64index_b64char [OF assms(1)] b64index_b64char [OF assms(2)]
      del: of_nat_add of_nat_mult)

lemma base64_roundtrip: "base64_decode (base64_encode bs) = Some bs"
proof (induction bs rule: base64_encode.induct)
  case 1
  show ?case by simp
next
  case (2 a)
  show ?case
    by (simp only: base64_encode.simps decode_pad2 [OF sextet_bounds(1) sextet_bounds(2)]
        decode_quad)
next
  case (3 a b)
  show ?case
    by (simp only: base64_encode.simps
        decode_pad1 [OF sextet_bounds(1) sextet_bounds(3) sextet_bounds(4)] decode_quad)
next
  case (4 a b c rest)
  then show ?case
    by (simp only: base64_encode.simps append.simps
        decode_full [OF sextet_bounds(1) sextet_bounds(3) sextet_bounds(5) sextet_bounds(6)]
        decode_quad option.map)
qed

lemma base64_no_comma: "CHR '','' \<notin> set (base64_encode bs)"
  by (induction bs rule: base64_encode.induct) (simp_all add: b64char_not_comma [symmetric])

lemma split_str_no_sep: "sep \<notin> set s \<Longrightarrow> split_str s sep = [s]"
  by (induction s) auto

lemma split_str_first:
  "sep \<notin> set pre \<Longrightarrow> split_str (pre @ sep # post) sep = pre # split_str post sep"
  by (induction pre) auto

lemma split_dataUrl:
  assumes "CHR '','' \<notin> set t" and "CHR '','' \<notin> set payload"
  shows "split_str (''data:'' @ t @ '';base64,'' @ payload) CHR '','' =
           [''data:'' @ t @ '';base64'', payload]"
proof -
  have eq: "''data:'' @ t @ '';base64,'' @ payload = (''data:'' @ t @ '';base64'') @ CHR '','' # payload"
    by simp
  have "CHR '','' \<notin> set (''data:'' @ t @ '';base64'')"
    using assms(1) by simp
  then have "split_str ((''data:'' @ t @ '';base64'') @ CHR '','' # payload) CHR '','' =
      (''data:'' @ t @ '';base64'') # split_str payload CHR '',''"
    by (rule split_str_first)
  then show ?thesis
    unfolding eq split_str_no_sep [OF assms(2)] .
qed

text \<open>
  For every readable file whose declared type contains no comma, as every media type
  does, the encoder resolves with a part whose payload is the bare radix-64 encoding of
  the file's bytes, paired with the declared type, and decoding the payload gives back
  the bytes: there the second segment of the data URL is the payload.
\<close>

lemma encoder_round_trip_no_comma:
  assumes "readable f" and "CHR '','' \<notin> set (ftype f)"
  shows "\<exists>payload.
           fileToGenerativePart f =
             Some \<lparr>inlineData = Some \<lparr>data = Some payload, mimeType = Some (ftype f)\<rparr>, text_p = None\<rparr>
           \<and> payload = base64_encode (fbytes f)
           \<and> base64_decode payload = Some (fbytes f)"
proof -
  have "split_str (''data:'' @ ftype f @ '';base64,'' @ base64_encode (fbytes f)) CHR '','' =
          [''data:'' @ ftype f @ '';base64'', base64_encode (fbytes f)]"
    using assms(2) base64_no_comma by (rule split_dataUrl)
  then have "fileToGenerativePart f =
      Some \<lparr>inlineData = Some \<lparr>data = Some (base64_encode (fbytes f)), mimeType = Some (ftype f)\<rparr>,
            text_p = None\<rparr>"
    using assms(1) by (simp add: fileToGenerativePart_def readAsDataURL_def at_index_def)
  then show ?thesis
    by (simp add: base64_roundtrip)
qed

text \<open>The lemma at a file of four bytes of type \<open>image/png\<close>.\<close>

lemma encoder_round_trip_png:
  "readable \<lparr>ftype = ''image/png'', fbytes = [0x4d, 0x61, 0x6e, 0x21], readable = True\<rparr>
   \<and> CHR '','' \<notin> set (ftype \<lparr>ftype = ''image/png'', fbytes = [0x4d, 0x61, 0x6e, 0x21], readable = True\<rparr>)
   \<and> fileToGenerativePart \<lparr>ftype = ''image/png'', fbytes = [0x4d, 0x61, 0x6e, 0x21], readable = True\<rparr> =
        Some \<lparr>inlineData = Some \<lparr>data = Some ''TWFuIQ=='', mimeType = Some ''image/png''\<rparr>, text_p = None\<rparr>
   \<and> base64_decode ''TWFuIQ=='' = Some [0x4d, 0x61, 0x6e, 0x21]"
proof -
  let ?f = "\<lparr>ftype = ''image/png'', fbytes = [0x4d, 0x61, 0x6e, 0x21], readable = True\<rparr>"
  have hyp: "readable ?f" "CHR '','' \<notin> set (ftype ?f)"
    by simp_all
  have enc: "base64_encode (fbytes ?f) = ''TWFuIQ==''"
    by (simp add: b64char_def char_of_eq_iff)
  obtain payload where p:
    "fileToGenerativePart ?f =
       Some \<lparr>inlineData = Some \<lparr>data = Some payload, mimeType = Some (ftype ?f)\<rparr>, text_p = None\<rparr>"
    "payload = base64_encode (fbytes ?f)"
    "base64_decode payload = Some (fbytes ?f)"
    using encoder_round_trip_no_comma [OF hyp] by blast
  have "payload = ''TWFuIQ==''"
    using p(2) enc by simp
  then show ?thesis
    using hyp p(1) p(3) by (simp del: base64_decode.simps)
qed

section \<open>The claims\<close>

text \<open>
  Claim C1, as amended. When the remote call resolves with a response whose first candidate
  has the part sequence \<open>ps\<close>, and \<open>ps\<close> holds a part with inline data or a part with
  a non-empty text and no inline data, the adapter returns an \<^verbatim>\<open>EditResult\<close> whose
  image is the data URL of the last part with inline data (absent when there is none) and
  whose text is the text of the last part that has a non-empty text and no inline data
  (absent when there is none): the whole sequence is visited and the last match wins.
\<close>

theorem C1_last_image_last_nonempty_text:
  assumes "gen (buildRequest imagePart textPrompt) = Inr r"
    and "firstParts r = Inr (Some ps)"
    and "lastImage ps \<noteq> None \<or> lastText ps \<noteq> None"
  shows "fst (editImageWithPrompt gen imagePart textPrompt w) =
           Inr \<lparr>image_r = lastImage ps, text_r = lastText ps\<rparr>"
  using assms by (auto simp: edit_scanned firstParts_scanned)

text \<open>
  The theorem at a response of four parts, image, text, image, text, where the second
  image and the second text are returned, and at a response of one image part, where the
  text is absent.
\<close>

theorem C1_last_image_last_nonempty_text_witness:
  "firstParts (respondWith [inlinePart ''image/png'' ''WA=='', textPart ''first'',
                            inlinePart ''image/png'' ''WQ=='', textPart ''second'']) =
     Inr (Some [inlinePart ''image/png'' ''WA=='', textPart ''first'',
                inlinePart ''image/png'' ''WQ=='', textPart ''second''])
   \<and> lastImage [inlinePart ''image/png'' ''WA=='', textPart ''first'',
                 inlinePart ''image/png'' ''WQ=='', textPart ''second''] =
       Some ''data:image/png;base64,WQ==''
   \<and> fst (editImageWithPrompt
         (\<lambda>req. Inr (respondWith [inlinePart ''image/png'' ''WA=='', textPart ''first'',
                                   inlinePart ''image/png'' ''WQ=='', textPart ''second'']))
         (inlinePart ''image/png'' ''QQ=='') ''Vintage Film'' emptyWorld) =
       Inr \<lparr>image_r = Some ''data:image/png;base64,WQ=='', text_r = Some ''second''\<rparr>
   \<and> fst (editImageWithPrompt (\<lambda>req. Inr (respondWith [inlinePart ''image/png'' ''WA=='']))
         (inlinePart ''image/png'' ''QQ=='') ''Vintage Film'' emptyWorld) =
       Inr \<lparr>image_r = Some ''data:image/png;base64,WA=='', text_r = None\<rparr>"
  using C1_last_image_last_nonempty_text
    [of "\<lambda>req. Inr (respondWith [inlinePart ''image/png'' ''WA=='', textPart ''first'',
                                   inlinePart ''image/png'' ''WQ=='', textPart ''second''])"
        "inlinePart ''image/png'' ''QQ==''" "''Vintage Film''" _
        "[inlinePart ''image/png'' ''WA=='', textPart ''first'',
          inlinePart ''image/png'' ''WQ=='', textPart ''second'']" emptyWorld]
    C1_last_image_last_nonempty_text
    [of "\<lambda>req. Inr (respondWith [inlinePart ''image/png'' ''WA==''])"
        "inlinePart ''image/png'' ''QQ==''" "''Vintage Film''" _
        "[inlinePart ''image/png'' ''WA=='']" emptyWorld]
  by (simp add: firstParts_respondWith lastImage_def lastText_def inlinePart_def textPart_def
      dataUrl_def interpolate_def truthy_def)

text \<open>
  Claim C1 as stated fails: for the parts image, text \<open>done\<close>, empty text, the last text
  part has the empty content, and the adapter returns the text \<open>done\<close>.
\<close>

theorem C1_last_text_part_counterexample:
  "fst (editImageWithPrompt
         (\<lambda>req. Inr (respondWith [inlinePart ''image/png'' ''WA=='', textPart ''done'', textPart '''']))
         (inlinePart ''image/png'' ''QQ=='') ''Vintage Film'' emptyWorld) =
     Inr \<lparr>image_r = Some ''data:image/png;base64,WA=='', text_r = Some ''done''\<rparr>
   \<and> spec_lastText [inlinePart ''image/png'' ''WA=='', textPart ''done'', textPart ''''] = Some ''''"
  by (simp add: editImageWithPrompt_def buildRequest_def respondWith_def normalizeResponse_def firstParts_def
      scanPart_def inlinePart_def textPart_def dataUrl_def interpolate_def truthy_def
      spec_lastText_def Let_def)

text \<open>
  Claim C2. When the remote call resolves with a response whose scanned part sequence has
  no part with inline data and no part with a text (the empty sequence and the responses
  for which the loop is not reached included), the adapter fails, with the generic
  message that the specification gives to a protocol error. And whenever the adapter
  returns an \<^verbatim>\<open>EditResult\<close>, its image or its text is a non-empty string: a
  result with both fields empty is never returned.
\<close>

theorem C2_no_usable_part_fails:
  "(gen (buildRequest imagePart textPrompt) = Inr r \<and>
      list_all (\<lambda>p. inlineData p = None \<and> text_p p = None) (scanned r) \<longrightarrow>
      fst (editImageWithPrompt gen imagePart textPrompt w) = Inl (JsError genericMessage))
   \<and> (fst (editImageWithPrompt gen imagePart textPrompt w) = Inr res \<longrightarrow>
        truthy (image_r res) \<or> truthy (text_r res))"
proof (intro conjI impI)
  assume a: "gen (buildRequest imagePart textPrompt) = Inr r \<and>
      list_all (\<lambda>p. inlineData p = None \<and> text_p p = None) (scanned r)"
  then have "lastImage (scanned r) = None" "lastText (scanned r) = None"
    by (auto simp: lastImage_None_iff lastText_None_iff list_all_iff truthy_def)
  then show "fst (editImageWithPrompt gen imagePart textPrompt w) = Inl (JsError genericMessage)"
    using a by (simp add: edit_scanned)
next
  assume "fst (editImageWithPrompt gen imagePart textPrompt w) = Inr res"
  then show "truthy (image_r res) \<or> truthy (text_r res)"
    by (rule edit_success_truthy)
qed

text \<open>
  The theorem at a response whose only part has neither inline data nor text, which
  fails, and at a response of one text part, whose result has a non-empty text.
\<close>

theorem C2_no_usable_part_fails_witness:
  "list_all (\<lambda>p. inlineData p = None \<and> text_p p = None)
     (scanned (respondWith [\<lparr>inlineData = None, text_p = None\<rparr>]))
   \<and> fst (editImageWithPrompt (\<lambda>req. Inr (respondWith [\<lparr>inlineData = None, text_p = None\<rparr>]))
        (inlinePart ''image/png'' ''QQ=='') ''Vintage Film'' emptyWorld) = Inl (JsError genericMessage)
   \<and> fst (editImageWithPrompt (\<lambda>req. Inr (respondWith [textPart ''ok'']))
        (inlinePart ''image/png'' ''QQ=='') ''Vintage Film'' emptyWorld) =
        Inr \<lparr>image_r = None, text_r = Some ''ok''\<rparr>
   \<and> truthy (text_r \<lparr>image_r = None, text_r = Some ''ok''\<rparr>)"
proof -
  have ok: "fst (editImageWithPrompt (\<lambda>req. Inr (respondWith [textPart ''ok'']))
        (inlinePart ''image/png'' ''QQ=='') ''Vintage Film'' emptyWorld) =
        Inr \<lparr>image_r = None, text_r = Some ''ok''\<rparr>"
    by (simp add: edit_scanned scanned_respondWith lastImage_def lastText_def textPart_def truthy_def)
  show ?thesis
    using C2_no_usable_part_fails
      [of "\<lambda>req. Inr (respondWith [\<lparr>inlineData = None, text_p = None\<rparr>])"
          "inlinePart ''image/png'' ''QQ==''" "''Vintage Film''"
          "respondWith [\<lparr>inlineData = None, text_p = None\<rparr>]" emptyWorld]
      C2_no_usable_part_fails
      [of "\<lambda>req. Inr (respondWith [textPart ''ok''])"
          "inlinePart ''image/png'' ''QQ==''" "''Vintage Film''" _ emptyWorld
          "\<lparr>image_r = None, text_r = Some ''ok''\<rparr>"]
      ok
    by (simp add: scanned_respondWith truthy_def)
qed

text \<open>
  Claim C4. When the scanned part sequence of the response has no part with inline data
  and at least one part with a non-empty text, the adapter succeeds: the image is absent
  and the text is the collected string, the non-empty text of the last such part.
\<close>

theorem C4_text_only_succeeds:
  assumes "gen (buildRequest imagePart textPrompt) = Inr r"
    and "list_all (\<lambda>p. inlineData p = None) (scanned r)"
    and "p \<in> set (scanned r)" and "text_p p = Some t0" and "t0 \<noteq> []"
  shows "\<exists>t. t \<noteq> [] \<and> lastText (scanned r) = Some t \<and>
           fst (editImageWithPrompt gen imagePart textPrompt w) =
             Inr \<lparr>image_r = None, text_r = Some t\<rparr>"
proof -
  have img: "lastImage (scanned r) = None"
    using assms(2) by (simp add: lastImage_None_iff)
  have "inlineData p = None" using assms(2,3) by (simp add: list_all_iff)
  then have "lastText (scanned r) \<noteq> None"
    using assms(3,4,5) by (auto simp: lastText_None_iff list_all_iff truthy_def)
  then obtain t where t: "lastText (scanned r) = Some t" by blast
  then have "t \<noteq> []" by (rule lastText_Some_nonempty)
  then show ?thesis using t img assms(1) by (simp add: edit_scanned)
qed

text \<open>The theorem at a response of one text part.\<close>

theorem C4_text_only_succeeds_witness:
  "list_all (\<lambda>p. inlineData p = None) (scanned (respondWith [textPart ''Cannot edit this.'']))
   \<and> textPart ''Cannot edit this.'' \<in> set (scanned (respondWith [textPart ''Cannot edit this.'']))
   \<and> fst (editImageWithPrompt (\<lambda>req. Inr (respondWith [textPart ''Cannot edit this.'']))
        (inlinePart ''image/png'' ''QQ=='') ''Vintage Film'' emptyWorld) =
        Inr \<lparr>image_r = None, text_r = Some ''Cannot edit this.''\<rparr>"
  using C4_text_only_succeeds
      [of "\<lambda>req. Inr (respondWith [textPart ''Cannot edit this.''])"
          "inlinePart ''image/png'' ''QQ==''" "''Vintage Film''"
          "respondWith [textPart ''Cannot edit this.'']" "textPart ''Cannot edit this.''"
          "''Cannot edit this.''" emptyWorld]
  by (simp add: scanned_respondWith textPart_def lastText_def truthy_def)

text \<open>
  Claim C5. Every invocation adds exactly one call to the calls made, whatever the remote
  service answers: its model is the fixed string, its content parts are the image part
  and then the text part of the instruction, and it asks for the image and the text
  modality.
\<close>

theorem C5_one_call_both_modalities:
  "calls (snd (editImageWithPrompt gen imagePart textPrompt w)) =
     calls w @ [\<lparr>model = ''gemini-2.5-flash-image-preview'',
                 contents = \<lparr>parts = Some [imagePart, \<lparr>inlineData = None, text_p = Some textPrompt\<rparr>]\<rparr>,
                 responseModalities = [IMAGE, TEXT]\<rparr>]"
  by (simp add: editImageWithPrompt_def buildRequest_def textPart_def model_name_def Let_def
      split: sum.splits)

text \<open>The theorem at the instruction \<open>Vintage Film\<close>, from a world with no call made.\<close>

theorem C5_one_call_both_modalities_witness:
  "calls (snd (editImageWithPrompt (\<lambda>req. Inr (respondWith [inlinePart ''image/png'' ''WA==''])) (inlinePart ''image/png'' ''QQ=='') ''Vintage Film'' emptyWorld)) =
     [\<lparr>model = ''gemini-2.5-flash-image-preview'',
       contents = \<lparr>parts = Some [inlinePart ''image/png'' ''QQ=='', \<lparr>inlineData = None, text_p = Some ''Vintage Film''\<rparr>]\<rparr>,
       responseModalities = [IMAGE, TEXT]\<rparr>]"
  using C5_one_call_both_modalities
      [of "\<lambda>req. Inr (respondWith [inlinePart ''image/png'' ''WA==''])"
          "inlinePart ''image/png'' ''QQ==''" "''Vintage Film''" emptyWorld]
  by (simp add: emptyWorld_def)


text \<open>
  Claim C3. When the remote call rejects with an \<^verbatim>\<open>Error\<close> whose message contains
  \<open>permission\<close>, the adapter throws an error with exactly the authorization message.
  When it rejects with any other \<^verbatim>\<open>Error\<close> or with a value that is no
  \<^verbatim>\<open>Error\<close>, and when the response is refused by the \<^verbatim>\<open>try\<close> block (a protocol
  failure), it throws an error with the one generic message. Every error the adapter
  throws carries one of these two fixed messages, never the text of the error caught,
  and the two messages differ.
\<close>

theorem C3_failure_classification:
  "(gen (buildRequest imagePart textPrompt) = Inl (JsError m) \<and> includes_str m ''permission'' \<longrightarrow>
      fst (editImageWithPrompt gen imagePart textPrompt w) =
        Inl (JsError ''API key is invalid or missing required permissions.''))
   \<and> (gen (buildRequest imagePart textPrompt) = Inl (JsError m) \<and> \<not> includes_str m ''permission'' \<longrightarrow>
      fst (editImageWithPrompt gen imagePart textPrompt w) = Inl (JsError genericMessage))
   \<and> (gen (buildRequest imagePart textPrompt) = Inl NonError \<longrightarrow>
      fst (editImageWithPrompt gen imagePart textPrompt w) = Inl (JsError genericMessage))
   \<and> (gen (buildRequest imagePart textPrompt) = Inr r \<and> normalizeResponse r = Inl e \<longrightarrow>
      fst (editImageWithPrompt gen imagePart textPrompt w) = Inl (JsError genericMessage))
   \<and> (fst (editImageWithPrompt gen imagePart textPrompt w) = Inl e' \<longrightarrow>
      e' = JsError authMessage \<or> e' = JsError genericMessage)
   \<and> authMessage = ''API key is invalid or missing required permissions.''
   \<and> authMessage \<noteq> genericMessage"
proof (intro conjI impI)
  assume "gen (buildRequest imagePart textPrompt) = Inl (JsError m) \<and> includes_str m ''permission''"
  then show "fst (editImageWithPrompt gen imagePart textPrompt w) =
        Inl (JsError ''API key is invalid or missing required permissions.'')"
    by (simp add: edit_rejected classify_def authMessage_def)
next
  assume "gen (buildRequest imagePart textPrompt) = Inl (JsError m) \<and> \<not> includes_str m ''permission''"
  then show "fst (editImageWithPrompt gen imagePart textPrompt w) = Inl (JsError genericMessage)"
    by (simp add: edit_rejected classify_def)
next
  assume "gen (buildRequest imagePart textPrompt) = Inl NonError"
  then show "fst (editImageWithPrompt gen imagePart textPrompt w) = Inl (JsError genericMessage)"
    by (simp add: edit_rejected classify_def)
next
  assume "gen (buildRequest imagePart textPrompt) = Inr r \<and> normalizeResponse r = Inl e"
  then show "fst (editImageWithPrompt gen imagePart textPrompt w) = Inl (JsError genericMessage)"
    by (auto simp: edit_resolved dest: normalizeResponse_Inl_generic)
next
  assume "fst (editImageWithPrompt gen imagePart textPrompt w) = Inl e'"
  then show "e' = JsError authMessage \<or> e' = JsError genericMessage"
    by (rule edit_Inl_range)
next
  show "authMessage = ''API key is invalid or missing required permissions.''"
    by (simp add: authMessage_def)
next
  show "authMessage \<noteq> genericMessage"
    by (rule auth_generic_distinct)
qed

text \<open>
  The theorem at a rejection that mentions a permission, at a rejection that does not, at
  a rejection with a value that is no \<^verbatim>\<open>Error\<close>, and at an empty response.
\<close>

theorem C3_failure_classification_witness:
  "includes_str ''The caller does not have permission'' ''permission''
   \<and> fst (editImageWithPrompt (\<lambda>req. Inl (JsError ''The caller does not have permission''))
        (inlinePart ''image/png'' ''QQ=='') ''Vintage Film'' emptyWorld) =
        Inl (JsError ''API key is invalid or missing required permissions.'')
   \<and> \<not> includes_str ''fetch failed'' ''permission''
   \<and> fst (editImageWithPrompt (\<lambda>req. Inl (JsError ''fetch failed''))
        (inlinePart ''image/png'' ''QQ=='') ''Vintage Film'' emptyWorld) =
        Inl (JsError ''Failed to process image with the AI model. Please try again later.'')
   \<and> fst (editImageWithPrompt (\<lambda>req. Inl NonError)
        (inlinePart ''image/png'' ''QQ=='') ''Vintage Film'' emptyWorld) =
        Inl (JsError ''Failed to process image with the AI model. Please try again later.'')
   \<and> normalizeResponse (respondWith []) = Inl (JsError invalidResponseMessage)
   \<and> fst (editImageWithPrompt (\<lambda>req. Inr (respondWith []))
        (inlinePart ''image/png'' ''QQ=='') ''Vintage Film'' emptyWorld) =
        Inl (JsError ''Failed to process image with the AI model. Please try again later.'')"
proof -
  have n: "normalizeResponse (respondWith []) = Inl (JsError invalidResponseMessage)"
    by (simp add: normalizeResponse_def firstParts_respondWith truthy_def)
  show ?thesis
    using C3_failure_classification
      [of "\<lambda>req. Inl (JsError ''The caller does not have permission'')"
          "inlinePart ''image/png'' ''QQ==''" "''Vintage Film''"
          "''The caller does not have permission''" emptyWorld]
      C3_failure_classification
      [of "\<lambda>req. Inl (JsError ''fetch failed'')"
          "inlinePart ''image/png'' ''QQ==''" "''Vintage Film''" "''fetch failed''" emptyWorld]
      C3_failure_classification
      [of "\<lambda>req. Inl NonError"
          "inlinePart ''image/png'' ''QQ==''" "''Vintage Film''" _ emptyWorld]
      C3_failure_classification
      [of "\<lambda>req. Inr (respondWith [])"
          "inlinePart ''image/png'' ''QQ==''" "''Vintage Film''" _ emptyWorld "respondWith []"
          "JsError invalidResponseMessage"]
      n
    by (simp add: genericMessage_def)
qed

text \<open>
  Claim C8. The result for a response with the candidates \<open>c # cs\<close> is the result for
  the response with the candidate \<open>c\<close> alone: the later candidates are ignored. When the
  list of candidates is absent, or the first candidate has no content or a content with
  no list of parts, the adapter fails with the generic message, as it does for a response
  whose part sequence is empty.
\<close>

theorem C8_first_candidate_only:
  "(gen (buildRequest imagePart textPrompt) = Inr \<lparr>candidates = Some (c # cs)\<rparr> \<and>
    gen' (buildRequest imagePart textPrompt) = Inr \<lparr>candidates = Some [c]\<rparr> \<longrightarrow>
      fst (editImageWithPrompt gen imagePart textPrompt w) =
      fst (editImageWithPrompt gen' imagePart textPrompt w))
   \<and> (gen (buildRequest imagePart textPrompt) = Inr r \<and>
      (candidates r = None \<or>
       (\<exists>c cs. candidates r = Some (c # cs) \<and>
          (content c = None \<or> (\<exists>ct. content c = Some ct \<and> parts ct = None)))) \<longrightarrow>
      fst (editImageWithPrompt gen imagePart textPrompt w) = Inl (JsError genericMessage) \<and>
      fst (editImageWithPrompt gen imagePart textPrompt w) =
      fst (editImageWithPrompt (\<lambda>req. Inr (respondWith [])) imagePart textPrompt w))"
proof -
  have "normalizeResponse \<lparr>candidates = Some (c # cs)\<rparr> = normalizeResponse \<lparr>candidates = Some [c]\<rparr>"
    by (simp add: normalizeResponse_def firstParts_def)
  then have first: "gen (buildRequest imagePart textPrompt) = Inr \<lparr>candidates = Some (c # cs)\<rparr> \<and>
    gen' (buildRequest imagePart textPrompt) = Inr \<lparr>candidates = Some [c]\<rparr> \<longrightarrow>
      fst (editImageWithPrompt gen imagePart textPrompt w) =
      fst (editImageWithPrompt gen' imagePart textPrompt w)"
    by (simp add: edit_resolved)
  have empty: "fst (editImageWithPrompt (\<lambda>req. Inr (respondWith [])) imagePart textPrompt w) =
      Inl (JsError genericMessage)"
    by (simp add: edit_scanned scanned_respondWith lastImage_def lastText_def)
  have absent: "fst (editImageWithPrompt gen imagePart textPrompt w) = Inl (JsError genericMessage)"
    if a: "gen (buildRequest imagePart textPrompt) = Inr r \<and>
      (candidates r = None \<or>
       (\<exists>c cs. candidates r = Some (c # cs) \<and>
          (content c = None \<or> (\<exists>ct. content c = Some ct \<and> parts ct = None))))"
  proof -
    have "scanned r = []"
      using a by (auto simp: scanned_def firstParts_def)
    then show ?thesis
      using a by (simp add: edit_scanned lastImage_def lastText_def)
  qed
  show ?thesis
    using first empty absent by simp
qed


text \<open>
  The theorem at a response whose second candidate holds an image, which is not returned,
  at a response with no list of candidates and at one with no list of parts.
\<close>

theorem C8_first_candidate_only_witness:
  "fst (editImageWithPrompt
         (\<lambda>req. Inr \<lparr>candidates = Some [\<lparr>content = Some \<lparr>parts = Some [textPart ''one'']\<rparr>\<rparr>,
                                          \<lparr>content = Some \<lparr>parts = Some [inlinePart ''image/png'' ''WA=='']\<rparr>\<rparr>]\<rparr>)
         (inlinePart ''image/png'' ''QQ=='') ''Vintage Film'' emptyWorld) =
     Inr \<lparr>image_r = None, text_r = Some ''one''\<rparr>
   \<and> fst (editImageWithPrompt (\<lambda>req. Inr \<lparr>candidates = None\<rparr>)
         (inlinePart ''image/png'' ''QQ=='') ''Vintage Film'' emptyWorld) = Inl (JsError genericMessage)
   \<and> fst (editImageWithPrompt (\<lambda>req. Inr \<lparr>candidates = Some [\<lparr>content = Some \<lparr>parts = None\<rparr>\<rparr>]\<rparr>)
         (inlinePart ''image/png'' ''QQ=='') ''Vintage Film'' emptyWorld) = Inl (JsError genericMessage)"
proof -
  have one: "fst (editImageWithPrompt
         (\<lambda>req. Inr \<lparr>candidates = Some [\<lparr>content = Some \<lparr>parts = Some [textPart ''one'']\<rparr>\<rparr>]\<rparr>)
         (inlinePart ''image/png'' ''QQ=='') ''Vintage Film'' emptyWorld) =
     Inr \<lparr>image_r = None, text_r = Some ''one''\<rparr>"
    by (simp add: edit_scanned scanned_def firstParts_def lastImage_def lastText_def textPart_def
        truthy_def)
  show ?thesis
    using C8_first_candidate_only
      [of "\<lambda>req. Inr \<lparr>candidates = Some [\<lparr>content = Some \<lparr>parts = Some [textPart ''one'']\<rparr>\<rparr>,
                                          \<lparr>content = Some \<lparr>parts = Some [inlinePart ''image/png'' ''WA=='']\<rparr>\<rparr>]\<rparr>"
          "inlinePart ''image/png'' ''QQ==''" "''Vintage Film''"
          "\<lparr>content = Some \<lparr>parts = Some [textPart ''one'']\<rparr>\<rparr>"
          "[\<lparr>content = Some \<lparr>parts = Some [inlinePart ''image/png'' ''WA=='']\<rparr>\<rparr>]"
          "\<lambda>req. Inr \<lparr>candidates = Some [\<lparr>content = Some \<lparr>parts = Some [textPart ''one'']\<rparr>\<rparr>]\<rparr>"
          emptyWorld]
      C8_first_candidate_only
      [of "\<lambda>req. Inr \<lparr>candidates = None\<rparr>"
          "inlinePart ''image/png'' ''QQ==''" "''Vintage Film''" _ _ _ emptyWorld
          "\<lparr>candidates = None\<rparr>"]
      C8_first_candidate_only
      [of "\<lambda>req. Inr \<lparr>candidates = Some [\<lparr>content = Some \<lparr>parts = None\<rparr>\<rparr>]\<rparr>"
          "inlinePart ''image/png'' ''QQ==''" "''Vintage Film''" _ _ _ emptyWorld
          "\<lparr>candidates = Some [\<lparr>content = Some \<lparr>parts = None\<rparr>\<rparr>]\<rparr>"]
      one
    by simp
qed

text \<open>
  Claim C9. A part with inline data sets the image and leaves the text collected so far
  as it is, whatever text the part carries; and the adapter's result does not change when
  the text of such a part is replaced by any other text, or removed.
\<close>

theorem C9_inline_data_hides_text:
  "(inlineData p = Some b \<longrightarrow> scanPart st p = (Some (dataUrl b), snd st))
   \<and> (inlineData p \<noteq> None \<and>
       gen (buildRequest imagePart textPrompt) = Inr r \<and>
       gen' (buildRequest imagePart textPrompt) = Inr r' \<and>
       firstParts r = Inr (Some (pre @ p # post)) \<and>
       firstParts r' = Inr (Some (pre @ p\<lparr>text_p := t\<rparr> # post)) \<longrightarrow>
       fst (editImageWithPrompt gen imagePart textPrompt w) =
       fst (editImageWithPrompt gen' imagePart textPrompt w))"
proof -
  have step: "inlineData p = Some b \<longrightarrow> scanPart st p = (Some (dataUrl b), snd st)"
    by (simp add: scanPart_def)
  have whole: "fst (editImageWithPrompt gen imagePart textPrompt w) =
       fst (editImageWithPrompt gen' imagePart textPrompt w)"
    if a: "inlineData p \<noteq> None \<and>
       gen (buildRequest imagePart textPrompt) = Inr r \<and>
       gen' (buildRequest imagePart textPrompt) = Inr r' \<and>
       firstParts r = Inr (Some (pre @ p # post)) \<and>
       firstParts r' = Inr (Some (pre @ p\<lparr>text_p := t\<rparr> # post))"
  proof -
    have "scanParts (None, None) (pre @ p\<lparr>text_p := t\<rparr> # post) =
          scanParts (None, None) (pre @ p # post)"
      using a by (simp add: scanParts_text_irrelevant)
    then show ?thesis
      using a edit_firstParts [of gen imagePart textPrompt r "pre @ p # post" w]
        edit_firstParts [of gen' imagePart textPrompt r' "pre @ p\<lparr>text_p := t\<rparr> # post" w]
      by simp
  qed
  show ?thesis using step whole by blast
qed

text \<open>
  The theorem at a part that carries both an image and the text \<open>caption\<close>: the text
  returned is the one of the earlier part.
\<close>

theorem C9_inline_data_hides_text_witness:
  "scanPart (None, Some ''kept'')
      \<lparr>inlineData = Some \<lparr>data = Some ''WA=='', mimeType = Some ''image/png''\<rparr>, text_p = Some ''caption''\<rparr> =
     (Some ''data:image/png;base64,WA=='', Some ''kept'')
   \<and> fst (editImageWithPrompt
         (\<lambda>req. Inr (respondWith [textPart ''kept'',
            \<lparr>inlineData = Some \<lparr>data = Some ''WA=='', mimeType = Some ''image/png''\<rparr>, text_p = Some ''caption''\<rparr>]))
         (inlinePart ''image/png'' ''QQ=='') ''Vintage Film'' emptyWorld) =
     Inr \<lparr>image_r = Some ''data:image/png;base64,WA=='', text_r = Some ''kept''\<rparr>"
proof -
  have plain: "fst (editImageWithPrompt
         (\<lambda>req. Inr (respondWith [textPart ''kept'',
            \<lparr>inlineData = Some \<lparr>data = Some ''WA=='', mimeType = Some ''image/png''\<rparr>, text_p = None\<rparr>]))
         (inlinePart ''image/png'' ''QQ=='') ''Vintage Film'' emptyWorld) =
     Inr \<lparr>image_r = Some ''data:image/png;base64,WA=='', text_r = Some ''kept''\<rparr>"
    by (simp add: edit_scanned scanned_respondWith lastImage_def lastText_def textPart_def
        truthy_def dataUrl_def interpolate_def)
  show ?thesis
    using C9_inline_data_hides_text
      [of "\<lparr>inlineData = Some \<lparr>data = Some ''WA=='', mimeType = Some ''image/png''\<rparr>, text_p = Some ''caption''\<rparr>"
          "\<lparr>data = Some ''WA=='', mimeType = Some ''image/png''\<rparr>"
          "(None, Some ''kept'')"
          "\<lambda>req. Inr (respondWith [textPart ''kept'',
            \<lparr>inlineData = Some \<lparr>data = Some ''WA=='', mimeType = Some ''image/png''\<rparr>, text_p = Some ''caption''\<rparr>])"
          "inlinePart ''image/png'' ''QQ==''" "''Vintage Film''"
          "respondWith [textPart ''kept'',
            \<lparr>inlineData = Some \<lparr>data = Some ''WA=='', mimeType = Some ''image/png''\<rparr>, text_p = Some ''caption''\<rparr>]"
          "\<lambda>req. Inr (respondWith [textPart ''kept'',
            \<lparr>inlineData = Some \<lparr>data = Some ''WA=='', mimeType = Some ''image/png''\<rparr>, text_p = None\<rparr>])"
          "respondWith [textPart ''kept'',
            \<lparr>inlineData = Some \<lparr>data = Some ''WA=='', mimeType = Some ''image/png''\<rparr>, text_p = None\<rparr>]"
          "[textPart ''kept'']" "[]" None emptyWorld]
      plain
    by (simp add: firstParts_respondWith dataUrl_def interpolate_def)
qed


text \<open>
  Claim C10. A part with no inline data and the empty text leaves the state of the loop
  as it is; the adapter's result does not change when every such part is removed from
  the scanned sequence; and for a scanned sequence of such parts only the adapter fails
  with the generic message instead of returning the empty text.
\<close>

theorem C10_empty_text_ignored:
  "(emptyTextPart p \<longrightarrow> scanPart st p = st)
   \<and> (gen (buildRequest imagePart textPrompt) = Inr r \<and>
       gen' (buildRequest imagePart textPrompt) = Inr r' \<and>
       firstParts r = Inr (Some ps) \<and>
       firstParts r' = Inr (Some (filter (\<lambda>p. \<not> emptyTextPart p) ps)) \<longrightarrow>
       fst (editImageWithPrompt gen imagePart textPrompt w) =
       fst (editImageWithPrompt gen' imagePart textPrompt w))
   \<and> (gen (buildRequest imagePart textPrompt) = Inr r \<and>
       firstParts r = Inr (Some ps) \<and> list_all emptyTextPart ps \<longrightarrow>
       fst (editImageWithPrompt gen imagePart textPrompt w) = Inl (JsError genericMessage))"
proof -
  have step: "emptyTextPart p \<longrightarrow> scanPart st p = st"
    by (simp add: scanPart_emptyText)
  have same: "fst (editImageWithPrompt gen imagePart textPrompt w) =
       fst (editImageWithPrompt gen' imagePart textPrompt w)"
    if a: "gen (buildRequest imagePart textPrompt) = Inr r \<and>
       gen' (buildRequest imagePart textPrompt) = Inr r' \<and>
       firstParts r = Inr (Some ps) \<and>
       firstParts r' = Inr (Some (filter (\<lambda>p. \<not> emptyTextPart p) ps))"
    using a edit_firstParts [of gen imagePart textPrompt r ps w]
      edit_firstParts [of gen' imagePart textPrompt r' "filter (\<lambda>p. \<not> emptyTextPart p) ps" w]
    by (simp add: scanParts_drop_emptyText)
  have fails: "fst (editImageWithPrompt gen imagePart textPrompt w) = Inl (JsError genericMessage)"
    if a: "gen (buildRequest imagePart textPrompt) = Inr r \<and>
       firstParts r = Inr (Some ps) \<and> list_all emptyTextPart ps"
  proof -
    have "filter (\<lambda>p. \<not> emptyTextPart p) ps = []"
      using a by (simp add: list_all_iff filter_empty_conv)
    then have "scanParts (None, None) ps = (None, None)"
      using scanParts_drop_emptyText [of "(None, None)" ps] by simp
    then show ?thesis
      using a edit_firstParts [of gen imagePart textPrompt r ps w]
      by (simp add: truthy_def)
  qed
  show ?thesis using step same fails by blast
qed

text \<open>
  The theorem at an empty text part after the text \<open>kept\<close>, which is returned, and at a
  response of two empty text parts, which fails.
\<close>

theorem C10_empty_text_ignored_witness:
  "emptyTextPart (textPart '''')
   \<and> scanPart (None, Some ''kept'') (textPart '''') = (None, Some ''kept'')
   \<and> fst (editImageWithPrompt (\<lambda>req. Inr (respondWith [textPart ''kept'', textPart '''']))
        (inlinePart ''image/png'' ''QQ=='') ''Vintage Film'' emptyWorld) =
        Inr \<lparr>image_r = None, text_r = Some ''kept''\<rparr>
   \<and> list_all emptyTextPart [textPart '''', textPart '''']
   \<and> fst (editImageWithPrompt (\<lambda>req. Inr (respondWith [textPart '''', textPart '''']))
        (inlinePart ''image/png'' ''QQ=='') ''Vintage Film'' emptyWorld) =
        Inl (JsError genericMessage)"
proof -
  have e: "emptyTextPart (textPart '''')" "\<not> emptyTextPart (textPart ''kept'')"
    by (simp_all add: emptyTextPart_def textPart_def)
  have plain: "fst (editImageWithPrompt (\<lambda>req. Inr (respondWith [textPart ''kept'']))
        (inlinePart ''image/png'' ''QQ=='') ''Vintage Film'' emptyWorld) =
        Inr \<lparr>image_r = None, text_r = Some ''kept''\<rparr>"
    by (simp add: edit_scanned scanned_respondWith lastImage_def lastText_def textPart_def
        truthy_def)
  show ?thesis
    using C10_empty_text_ignored
      [of "textPart ''''" "(None, Some ''kept'')"
          "\<lambda>req. Inr (respondWith [textPart ''kept'', textPart ''''])"
          "inlinePart ''image/png'' ''QQ==''" "''Vintage Film''"
          "respondWith [textPart ''kept'', textPart '''']"
          "\<lambda>req. Inr (respondWith [textPart ''kept''])"
          "respondWith [textPart ''kept'']"
          "[textPart ''kept'', textPart '''']" emptyWorld]
      C10_empty_text_ignored
      [of _ _
          "\<lambda>req. Inr (respondWith [textPart '''', textPart ''''])"
          "inlinePart ''image/png'' ''QQ==''" "''Vintage Film''"
          "respondWith [textPart '''', textPart '''']" _ _
          "[textPart '''', textPart '''']" emptyWorld]
      e plain
    by (simp add: firstParts_respondWith)
qed

text \<open>
  Claim C6: for every readable file the encoder produces the bare radix-64 encoding of
  the file's bytes, with the prefix of the data URL stripped, and decoding the payload
  gives back the bytes. The comment of line 13 and the docstring announce that, and the
  code misses it for a declared type with a comma: at a readable file of type
  \<open>image/x,y\<close> with the one byte \<open>0x41\<close>, the second segment of the data URL is
  \<open>y;base64\<close>, a piece of the prefix. The function resolves with that payload, which
  is not the encoding \<open>QQ==\<close> of the byte and does not decode.
\<close>

theorem C6_comma_in_type_failing_input:
  "readable \<lparr>ftype = ''image/x,y'', fbytes = [0x41], readable = True\<rparr>
   \<and> fileToGenerativePart \<lparr>ftype = ''image/x,y'', fbytes = [0x41], readable = True\<rparr> =
        Some \<lparr>inlineData = Some \<lparr>data = Some ''y;base64'', mimeType = Some ''image/x,y''\<rparr>, text_p = None\<rparr>
   \<and> base64_encode [0x41] = ''QQ==''
   \<and> base64_decode ''y;base64'' = None"
  by (simp add: fileToGenerativePart_def readAsDataURL_def at_index_def b64char_def b64index_def
      char_of_eq_iff)

text \<open>
  Claim C7. When the key is absent from the environment (not set, or set to the empty
  string, which the test of line 4 treats alike), the initialization of the module fails
  with the error \<open>API_KEY environment variable is not set\<close> and no client is built. When
  the key is present, a non-empty string, the initialization succeeds with a client
  built from that key.
\<close>

theorem C7_credential_required:
  "(env ''API_KEY'' = None \<longrightarrow>
      initModule env = Inl (JsError ''API_KEY environment variable is not set''))
   \<and> (env ''API_KEY'' = Some [] \<longrightarrow>
      initModule env = Inl (JsError ''API_KEY environment variable is not set''))
   \<and> (env ''API_KEY'' = Some k \<and> k \<noteq> [] \<longrightarrow> initModule env = Inr \<lparr>apiKey = Some k\<rparr>)"
  by (simp add: initModule_def truthy_def)

text \<open>
  The theorem at the empty environment, at an empty key and at the key \<open>secret\<close>.
\<close>

theorem C7_credential_required_witness:
  "initModule Map.empty = Inl (JsError ''API_KEY environment variable is not set'')
   \<and> initModule [''API_KEY'' \<mapsto> ''''] = Inl (JsError ''API_KEY environment variable is not set'')
   \<and> initModule [''API_KEY'' \<mapsto> ''secret''] = Inr \<lparr>apiKey = Some ''secret''\<rparr>"
  using C7_credential_required [of Map.empty]
    C7_credential_required [of "[''API_KEY'' \<mapsto> '''']"]
    C7_credential_required [of "[''API_KEY'' \<mapsto> ''secret'']" "''secret''"]
  by simp

end
